theory Spec2Isabelle
  imports Complex_Main "HOL-Library.AList"
begin

section \<open>Values of the script\<close>

text \<open>
  \<^verbatim>\<open>poll_git.py\<close> handles the values that \<^verbatim>\<open>req.json()\<close> produces: the Python
  image of a JSON document. A dictionary is an association list (looked up with
  \<^const>\<open>map_of\<close>, so the first binding of a key is the one that counts; a Python
  dictionary has one binding per key). The script never computes with a float, so the
  type of floats is left abstract.
\<close>

typedecl pyfloat

datatype json =
    JNull
  | JBool bool
  | JInt int
  | JFloat pyfloat
  | JStr string
  | JList "json list"
  | JDict "(string \<times> json) list"

type_synonym dict = "(string \<times> json) list"

text \<open>The exceptions that can leave the script, and those of the HTTP layer.\<close>

datatype error =
    KeyError string
  | TypeError
  | AttributeError
  | ConnectionError
  | ValueError

section \<open>Operations of the Python objects\<close>

text \<open>\<^verbatim>\<open>obj[key]\<close> with a string key: only a dictionary can be indexed by a string.\<close>

definition getitem :: "json \<Rightarrow> string \<Rightarrow> error + json" where
  "getitem obj key =
     (case obj of
        JDict d \<Rightarrow> (case map_of d key of None \<Rightarrow> Inl (KeyError key) | Some v \<Rightarrow> Inr v)
      | _ \<Rightarrow> Inl TypeError)"

text \<open>\<^verbatim>\<open>obj.get(key, default)\<close>: only a dictionary has the method.\<close>

definition dict_get :: "json \<Rightarrow> string \<Rightarrow> json \<Rightarrow> error + json" where
  "dict_get obj key dflt =
     (case obj of
        JDict d \<Rightarrow> (case map_of d key of None \<Rightarrow> Inr dflt | Some v \<Rightarrow> Inr v)
      | _ \<Rightarrow> Inl AttributeError)"

text \<open>
  Iteration, as \<^verbatim>\<open>for x in obj\<close> and \<^verbatim>\<open>list.extend(obj)\<close> do it: a list gives
  its elements, a string its characters, a dictionary its keys; nothing else is iterable.
\<close>

definition py_iter :: "json \<Rightarrow> error + json list" where
  "py_iter obj =
     (case obj of
        JList xs \<Rightarrow> Inr xs
      | JStr s \<Rightarrow> Inr (map (\<lambda>c. JStr [c]) s)
      | JDict d \<Rightarrow> Inr (map JStr (remdups (map fst d)))
      | _ \<Rightarrow> Inl TypeError)"

text \<open>\<^verbatim>\<open>d.pop(k)\<close> without a default raises when the key is absent.\<close>

definition pop :: "string \<Rightarrow> dict \<Rightarrow> error + dict" where
  "pop k d = (if k \<in> fst ` set d then Inr (AList.delete k d) else Inl (KeyError k))"

text \<open>\<^verbatim>\<open>'%d' % n\<close> and \<^verbatim>\<open>'%s' % n\<close> for an integer: its decimal digits.\<close>

fun str_nat :: "nat \<Rightarrow> string" where
  "str_nat n =
     (if n < 10 then [''0123456789'' ! n]
      else str_nat (n div 10) @ [''0123456789'' ! (n mod 10)])"

declare str_nat.simps [simp del]

definition str_int :: "int \<Rightarrow> string" where
  "str_int i = (if i < 0 then ''-'' @ str_nat (nat (- i)) else str_nat (nat i))"

section \<open>The outside world\<close>

text \<open>
  \<^verbatim>\<open>requests.get(url)\<close> followed by \<^verbatim>\<open>req.json()\<close> is a function of the URL and of
  the state of the world (the server, the network, a mock with canned answers): it
  returns the decoded document or raises, and leaves a new state of the world. The
  state of the program's environment also records every exchange, oldest first, and
  what was printed.

  A printed line is either a text or the text that \<^verbatim>\<open>json.dumps(obj, indent=n)\<close>
  returns for a document; the serialiser belongs to the Python library, so its output
  is kept as the call that produces it.
\<close>

type_synonym 'w http = "string \<Rightarrow> 'w \<Rightarrow> (error + json) \<times> 'w"

datatype printed = Line string | Json_dumps nat json

record 'w env =
  transcript :: "(string \<times> (error + json)) list"
  world :: 'w
  stdout :: "printed list"

definition http_get :: "'w http \<Rightarrow> string \<Rightarrow> 'w env \<Rightarrow> (error + json) \<times> 'w env" where
  "http_get get url s =
     (case get url (world s) of
        (r, w) \<Rightarrow> (r, s\<lparr>transcript := transcript s @ [(url, r)], world := w\<rparr>))"

section \<open>Globals\<close>

definition BASE_URL :: string where
  "BASE_URL = ''https://api.github.com/search/repositories''"

definition QUALIFIERS :: "string \<Rightarrow> int \<Rightarrow> int \<Rightarrow> string" where
  "QUALIFIERS keyw per_page page =
     ''?q='' @ keyw @ ''&sort=forks&order=desc&per_page='' @ str_int per_page
       @ ''&page='' @ str_int page"

definition DATA_KEYS :: "string set" where
  "DATA_KEYS = {''id'', ''name'', ''description'', ''language'', ''created_at'',
                ''html_url'', ''watchers_count'', ''forks_count'', ''owner''}"

definition OWNER_KEYS :: "string set" where
  "OWNER_KEYS = {''login'', ''id'', ''url''}"

section \<open>Functions\<close>

subsection \<open>\<^verbatim>\<open>_retrieve_data\<close>\<close>

text \<open>
  The first two statements: the page size and the URL of the request. The recursion
  follows the source; the recursion limit of the interpreter is not part of the model
  (\<^verbatim>\<open>main\<close> calls with a limit of at most 1000, that is at most ten nested calls).
\<close>

definition per_page :: "int \<Rightarrow> int" where
  "per_page limit = (if limit < 100 then limit else 100)"

definition page_url :: "string \<Rightarrow> int \<Rightarrow> int \<Rightarrow> string" where
  "page_url keyw limit page = BASE_URL @ QUALIFIERS keyw (per_page limit) page"

function retrieve_data :: "'w http \<Rightarrow> string \<Rightarrow> int \<Rightarrow> int \<Rightarrow> 'w env \<Rightarrow> (error + json) \<times> 'w env" where
  "retrieve_data get keyw limit page s =
     (case http_get get (page_url keyw limit page) s of
        (Inl e, s1) \<Rightarrow> (Inl e, s1)
      | (Inr r_json, s1) \<Rightarrow>
          if limit > 100 then
            (case getitem r_json ''items'' of
               Inl e \<Rightarrow> (Inl e, s1)
             | Inr (JList xs) \<Rightarrow>
                 (case retrieve_data get keyw (limit - 100) (page + 1) s1 of
                    (Inl e, s2) \<Rightarrow> (Inl e, s2)
                  | (Inr rest, s2) \<Rightarrow>
                      (case dict_get rest ''items'' (JList []) of
                         Inl e \<Rightarrow> (Inl e, s2)
                       | Inr extra \<Rightarrow>
                           (case py_iter extra of
                              Inl e \<Rightarrow> (Inl e, s2)
                            | Inr ys \<Rightarrow>
                                (case r_json of
                                   JDict d \<Rightarrow>
                                     (Inr (JDict (AList.update ''items'' (JList (xs @ ys)) d)), s2)
                                 | _ \<Rightarrow> (Inl TypeError, s2)))))
             | Inr _ \<Rightarrow> (Inl AttributeError, s1))
          else (Inr r_json, s1))"
  by pat_completeness auto
termination
  by (relation "measure (\<lambda>(get, keyw, limit, page, s). nat limit)") auto

declare retrieve_data.simps [simp del]

subsection \<open>\<^verbatim>\<open>_filter_dict\<close>\<close>

text \<open>
  The loop \<^verbatim>\<open>for k in set(src_dict.keys()) - key_set: src_dict.pop(k)\<close>. The keys to
  remove are visited in the order of the dictionary (Python fixes no order for a set).
  The dictionary is changed in place: the function returns the changed dictionary.
\<close>

fun pop_each :: "string list \<Rightarrow> dict \<Rightarrow> error + dict" where
  "pop_each [] d = Inr d"
| "pop_each (k # ks) d = (case pop k d of Inl e \<Rightarrow> Inl e | Inr d' \<Rightarrow> pop_each ks d')"

definition filter_dict :: "json \<Rightarrow> string set \<Rightarrow> error + json" where
  "filter_dict src_dict key_set =
     (case src_dict of
        JDict d \<Rightarrow>
          (case pop_each (filter (\<lambda>k. k \<notin> key_set) (remdups (map fst d))) d of
             Inl e \<Rightarrow> Inl e
           | Inr d' \<Rightarrow> Inr (JDict d'))
      | _ \<Rightarrow> Inl AttributeError)"

subsection \<open>\<^verbatim>\<open>main\<close>\<close>

text \<open>
  The body of the loop over \<^verbatim>\<open>data['items']\<close>: both calls change their argument in
  place, so the owner that the second call has filtered is the owner of the item.
\<close>

definition filter_item :: "json \<Rightarrow> error + json" where
  "filter_item item =
     (case filter_dict item DATA_KEYS of
        Inl e \<Rightarrow> Inl e
      | Inr item1 \<Rightarrow>
          (case getitem item1 ''owner'' of
             Inl e \<Rightarrow> Inl e
           | Inr owner \<Rightarrow>
               (case filter_dict owner OWNER_KEYS of
                  Inl e \<Rightarrow> Inl e
                | Inr owner1 \<Rightarrow>
                    (case item1 of
                       JDict d \<Rightarrow> Inr (JDict (AList.update ''owner'' owner1 d))
                     | _ \<Rightarrow> Inl TypeError))))"

fun filter_items :: "json list \<Rightarrow> error + json list" where
  "filter_items [] = Inr []"
| "filter_items (item # items) =
     (case filter_item item of
        Inl e \<Rightarrow> Inl e
      | Inr item1 \<Rightarrow>
          (case filter_items items of
             Inl e \<Rightarrow> Inl e
           | Inr items1 \<Rightarrow> Inr (item1 # items1)))"

datatype status = Done | Exit int | Uncaught error

text \<open>
  \<^verbatim>\<open>main\<close> after \<^verbatim>\<open>parse_args\<close>: \<open>keyword\<close> and \<open>limit\<close> are the parsed arguments.
  When \<^verbatim>\<open>data['items']\<close> is a list, the loop leaves the list in place with every item
  filtered; an empty string or dictionary gives no iteration and stays as it is.
\<close>

definition main :: "'w http \<Rightarrow> string \<Rightarrow> int \<Rightarrow> 'w env \<Rightarrow> status \<times> 'w env" where
  "main get keyword limit s =
     (if limit < 1 \<or> limit > 1000 then
        (Exit 1,
         s\<lparr>stdout := stdout s @
              [Line (''ERROR: limit ['' @ str_int limit @ ''] is not in the range 1-1000'')]\<rparr>)
      else
        (case retrieve_data get keyword limit 1 s of
           (Inl e, s1) \<Rightarrow> (Uncaught e, s1)
         | (Inr data, s1) \<Rightarrow>
             (case getitem data ''items'' of
                Inl e \<Rightarrow> (Uncaught e, s1)
              | Inr its \<Rightarrow>
                  (case py_iter its of
                     Inl e \<Rightarrow> (Uncaught e, s1)
                   | Inr xs \<Rightarrow>
                       (case filter_items xs of
                          Inl e \<Rightarrow> (Uncaught e, s1)
                        | Inr xs1 \<Rightarrow>
                            (case getitem data ''total_count'' of
                               Inl e \<Rightarrow> (Uncaught e, s1)
                             | Inr total_count \<Rightarrow>
                                 (let repo_list = (case its of JList _ \<Rightarrow> JList xs1 | _ \<Rightarrow> its);
                                      json_dict = JDict [(''keyword'', JStr keyword),
                                                         (''repository_limit'', JInt limit),
                                                         (''total_repositories'', total_count),
                                                         (''repo_list'', repo_list)]
                                  in (Done, s1\<lparr>stdout := stdout s1 @ [Json_dumps 4 json_dict]\<rparr>))))))))"

section \<open>Observations\<close>

text \<open>
  The items that a response contributes to the merged list: what
  \<^verbatim>\<open>.get('items', [])\<close> gives, iterated as \<^verbatim>\<open>extend\<close> does.
\<close>

definition items_of :: "json \<Rightarrow> json list" where
  "items_of r =
     (case dict_get r ''items'' (JList []) of
        Inl e \<Rightarrow> []
      | Inr v \<Rightarrow> (case py_iter v of Inl e \<Rightarrow> [] | Inr ys \<Rightarrow> ys))"

text \<open>
  The number of pages for a limit, and the URLs of these pages from a first page on:
  page \<open>i\<close> (from 0) is asked with what remains of the limit after \<open>i\<close> pages of 100.
\<close>

definition pages :: "int \<Rightarrow> nat" where
  "pages limit = (if limit \<le> 100 then 1 else nat ((limit + 99) div 100))"

definition page_requests :: "string \<Rightarrow> int \<Rightarrow> int \<Rightarrow> string list" where
  "page_requests keyw limit page =
     map (\<lambda>i. page_url keyw (limit - 100 * int i) (page + int i)) [0..<pages limit]"

text \<open>
  What a run has exchanged with the server: the URLs it has asked for and the documents
  it has received, in order, read from the transcript after the one of the start.
\<close>

definition requests :: "'w env \<Rightarrow> 'w env \<Rightarrow> string list" where
  "requests s s' = map fst (drop (length (transcript s)) (transcript s'))"

definition responses :: "'w env \<Rightarrow> 'w env \<Rightarrow> json list" where
  "responses s s' =
     concat (map (\<lambda>(url, r). case r of Inl e \<Rightarrow> [] | Inr doc \<Rightarrow> [doc])
                 (drop (length (transcript s)) (transcript s')))"

section \<open>A server with canned answers\<close>

text \<open>
  A test double for the HTTP layer: the world is the list of the documents still to be
  served, one for each request, whatever the URL; when it is empty the request fails.
\<close>

definition canned :: "json list http" where
  "canned url w = (case w of [] \<Rightarrow> (Inl ConnectionError, []) | doc # docs \<Rightarrow> (Inr doc, docs))"


definition start :: "'w \<Rightarrow> 'w env" where
  "start w = \<lparr>transcript = [], world = w, stdout = []\<rparr>"

definition page_doc :: "int \<Rightarrow> json list \<Rightarrow> json" where
  "page_doc n its = JDict [(''total_count'', JInt n), (''items'', JList its)]"

definition sample_repo :: json where
  "sample_repo =
     JDict [(''id'', JInt 7), (''name'', JStr ''raft''), (''fork'', JBool False),
            (''owner'', JDict [(''login'', JStr ''ann''), (''id'', JInt 3),
                               (''type'', JStr ''User''), (''url'', JStr ''u'')]),
            (''forks_count'', JInt 5), (''score'', JInt 1)]"

definition sample_repo_filtered :: json where
  "sample_repo_filtered =
     JDict [(''id'', JInt 7), (''name'', JStr ''raft''),
            (''owner'', JDict [(''login'', JStr ''ann''), (''id'', JInt 3), (''url'', JStr ''u'')]),
            (''forks_count'', JInt 5)]"

text \<open>The answer of a server that refuses the request: a message and no \<^verbatim>\<open>items\<close>.\<close>

definition rate_limited :: json where
  "rate_limited = JDict [(''message'', JStr ''API rate limit exceeded'')]"

text \<open>
  Records that already have the printed shape, and the answer of a server that holds a
  list of results and pages by \<^verbatim>\<open>per_page\<close>: page \<open>p\<close> of size \<open>n\<close> is the results from
  \<open>(p - 1) * n\<close> on, at most \<open>n\<close> of them, with the number of all results as
  \<^verbatim>\<open>total_count\<close>.
\<close>

definition repo :: "nat \<Rightarrow> json" where
  "repo i = JDict [(''id'', JInt (int i)), (''owner'', JDict [(''login'', JStr ''ann'')])]"

definition paged_answer :: "json list \<Rightarrow> nat \<Rightarrow> nat \<Rightarrow> json" where
  "paged_answer results n p =
     page_doc (int (length results)) (take n (drop ((p - 1) * n) results))"

section \<open>Field filtering\<close>

text \<open>
  No \<^verbatim>\<open>pop\<close> of the loop can raise: every key it visits is a key of the dictionary,
  and is visited once. What is left is the dictionary restricted to the key set.
\<close>

lemma pop_each_restrict:
  "set ks \<subseteq> fst ` set d \<Longrightarrow> distinct ks \<Longrightarrow>
   pop_each ks d = Inr (AList.restrict (- set ks) d)"
proof (induction ks arbitrary: d)
  case Nil
  have "AList.restrict UNIV d = d"
    by (simp add: AList.restrict_eq)
  then show ?case by simp
next
  case (Cons k ks)
  have sub: "set ks \<subseteq> fst ` set (AList.delete k d)"
    using Cons.prems by (force simp: AList.delete_eq)
  have "pop_each (k # ks) d = pop_each ks (AList.delete k d)"
    using Cons.prems by (simp add: pop_def)
  also have "\<dots> = Inr (AList.restrict (- set ks) (AList.delete k d))"
    using Cons.IH [OF sub] Cons.prems by simp
  also have "AList.restrict (- set ks) (AList.delete k d) = AList.restrict (- set (k # ks)) d"
    by (induction d) (auto simp: AList.delete_eq)
  finally show ?case .
qed

lemma filter_dict_restrict:
  "filter_dict (JDict d) K = Inr (JDict (AList.restrict K d))"
proof -
  let ?ks = "filter (\<lambda>k. k \<notin> K) (remdups (map fst d))"
  have "pop_each ?ks d = Inr (AList.restrict (- set ?ks) d)"
    by (rule pop_each_restrict) auto
  moreover have "AList.restrict (- set ?ks) d = AList.restrict K d"
    unfolding AList.restrict_eq by (rule filter_cong) force+
  ultimately show ?thesis
    by (simp add: filter_dict_def)
qed

section \<open>Pages\<close>

lemma ceil100: "\<lceil>real_of_int l / 100\<rceil> = (l + 99) div 100"
proof -
  define z where "z = (l + 99) div 100"
  define m where "m = (l + 99) mod 100"
  have eq: "l + 99 = 100 * z + m"
    by (simp add: z_def m_def)
  have m: "0 \<le> m" "m < 100"
    by (simp_all add: m_def)
  have "real_of_int l = 100 * real_of_int z + real_of_int m - 99"
  proof -
    have "real_of_int (l + 99) = real_of_int (100 * z + m)"
      by (simp only: eq)
    then show ?thesis by simp
  qed
  moreover have "0 \<le> real_of_int m" "real_of_int m \<le> 99"
    using m by simp_all
  ultimately have "real_of_int z - 1 < real_of_int l / 100" "real_of_int l / 100 \<le> real_of_int z"
    by simp_all
  then show ?thesis
    unfolding z_def [symmetric] by (rule ceiling_unique)
qed

lemma div100_step: "(limit + 99) div 100 = (limit - 1) div 100 + (1::int)"
proof -
  have "(limit + 99) div 100 = (limit - 1 + 100) div 100"
    by simp
  also have "\<dots> = (limit - 1) div 100 + 1"
    by (simp only: div_add_self2)
  finally show ?thesis .
qed

lemma pages_step: "100 < limit \<Longrightarrow> pages limit = Suc (pages (limit - 100))"
proof -
  assume l: "100 < limit"
  have nonneg: "0 \<le> (limit - 1) div 100"
    using l by (simp only: pos_imp_zdiv_nonneg_iff)
  have a: "pages limit = Suc (nat ((limit - 1) div 100))"
    using l nonneg unfolding pages_def div100_step
    by (simp only: Suc_nat_eq_nat_zadd1 add.commute) simp
  show ?thesis
  proof (cases "limit \<le> 200")
    case True
    have "(limit - 101) div 100 = 0"
      using l True by (intro div_pos_pos_trivial) simp_all
    moreover have "(limit - 1) div 100 = (limit - 101) div 100 + 1"
      using div100_step [of "limit - 100"] by simp
    ultimately have "(limit - 1) div 100 = 1" by simp
    with a True show ?thesis by (simp add: pages_def)
  next
    case False
    then have "pages (limit - 100) = nat ((limit - 1) div 100)"
      by (simp add: pages_def)
    with a show ?thesis by simp
  qed
qed

lemma page_requests_base: "limit \<le> 100 \<Longrightarrow> page_requests keyw limit page = [page_url keyw limit page]"
  by (simp add: page_requests_def pages_def)

lemma page_requests_step:
  "100 < limit \<Longrightarrow>
   page_requests keyw limit page = page_url keyw limit page # page_requests keyw (limit - 100) (page + 1)"
proof -
  assume l: "100 < limit"
  have "[0..<Suc (pages (limit - 100))] = 0 # map Suc [0..<pages (limit - 100)]"
    by (simp only: map_Suc_upt upt_conv_Cons [of 0] zero_less_Suc)
  then show ?thesis
    unfolding page_requests_def pages_step [OF l]
    by (simp add: o_def algebra_simps del: upt_Suc)
qed

section \<open>The pages of a run\<close>

lemma retrieve_data_base:
  "limit \<le> 100 \<Longrightarrow> retrieve_data get keyw limit page s = http_get get (page_url keyw limit page) s"
  by (subst retrieve_data.simps) (simp split: prod.splits sum.splits)

lemma http_get_env:
  "http_get get url s = (r, s1) \<Longrightarrow>
   transcript s1 = transcript s @ [(url, r)] \<and> stdout s1 = stdout s \<and>
   r = fst (get url (world s)) \<and> world s1 = snd (get url (world s))"
  by (auto simp: http_get_def split: prod.splits)

lemma retrieve_data_Inr_step:
  assumes "100 < limit" and "retrieve_data get keyw limit page s = (Inr r, s')"
  shows "\<exists>d xs s1 rest extra ys.
           http_get get (page_url keyw limit page) s = (Inr (JDict d), s1) \<and>
           map_of d ''items'' = Some (JList xs) \<and>
           retrieve_data get keyw (limit - 100) (page + 1) s1 = (Inr rest, s') \<and>
           dict_get rest ''items'' (JList []) = Inr extra \<and> py_iter extra = Inr ys \<and>
           r = JDict (AList.update ''items'' (JList (xs @ ys)) d)"
  using assms(2)
  apply (subst (asm) retrieve_data.simps)
  apply (simp add: assms(1) split: prod.splits sum.splits json.splits)
  apply (auto simp: getitem_def split: json.splits option.splits)
  done

lemma retrieve_data_step_env:
  assumes "100 < limit" and "retrieve_data get keyw limit page s = (res, s')"
    and "http_get get (page_url keyw limit page) s = (r1, s1)"
  shows "s' = s1 \<or> (\<exists>res2. retrieve_data get keyw (limit - 100) (page + 1) s1 = (res2, s'))"
  using assms(2)
  apply (subst (asm) retrieve_data.simps)
  apply (simp add: assms(1,3) split: prod.splits sum.splits json.splits)
  done

lemma retrieve_data_transcript:
  "retrieve_data get keyw limit page s = (res, s') \<Longrightarrow>
   \<exists>ex. transcript s' = transcript s @ ex \<and> stdout s' = stdout s \<and> ex \<noteq> [] \<and>
        length ex \<le> pages limit \<and>
        map fst ex = take (length ex) (page_requests keyw limit page)"
proof (induction "nat limit" arbitrary: limit page s res s' rule: less_induct)
  case less
  obtain r1 s1 where h: "http_get get (page_url keyw limit page) s = (r1, s1)"
    by (cases "http_get get (page_url keyw limit page) s")
  note e = http_get_env [OF h]
  have one: "transcript s1 = transcript s @ [(page_url keyw limit page, r1)]"
    using e by simp
  show ?case
  proof (cases "limit \<le> 100")
    case True
    then have "s' = s1"
      using less.prems h by (simp add: retrieve_data_base)
    then show ?thesis
      using one e True by (simp add: page_requests_base pages_def)
  next
    case False
    then have l: "100 < limit" by simp
    from retrieve_data_step_env [OF l less.prems h]
    show ?thesis
    proof
      assume "s' = s1"
      then show ?thesis
        using one e by (simp add: page_requests_step [OF l] pages_step [OF l])
    next
      assume "\<exists>res2. retrieve_data get keyw (limit - 100) (page + 1) s1 = (res2, s')"
      then obtain res2 where rec: "retrieve_data get keyw (limit - 100) (page + 1) s1 = (res2, s')" ..
      have "nat (limit - 100) < nat limit" using l by simp
      from less.hyps [OF this rec] obtain ex where
        ex: "transcript s' = transcript s1 @ ex" "stdout s' = stdout s1" "ex \<noteq> []"
            "length ex \<le> pages (limit - 100)"
            "map fst ex = take (length ex) (page_requests keyw (limit - 100) (page + 1))"
        by blast
      let ?ex = "(page_url keyw limit page, r1) # ex"
      have "transcript s' = transcript s @ ?ex"
        using ex one by simp
      moreover have "stdout s' = stdout s" using ex e by simp
      moreover have "length ?ex \<le> pages limit"
        using ex by (simp add: pages_step [OF l])
      moreover have "map fst ?ex = take (length ?ex) (page_requests keyw limit page)"
        using ex by (simp add: page_requests_step [OF l])
      ultimately show ?thesis by blast
    qed
  qed
qed

lemma items_of_update:
  "items_of (JDict (AList.update ''items'' (JList zs) d)) = zs"
  by (simp add: items_of_def dict_get_def py_iter_def update_conv')

lemma retrieve_data_returns:
  "retrieve_data get keyw limit page s = (Inr r, s') \<Longrightarrow>
   \<exists>rs. transcript s' = transcript s @ zip (page_requests keyw limit page) (map Inr rs) \<and>
        length rs = pages limit \<and>
        items_of r = concat (map items_of rs) \<and>
        fst (get (page_url keyw limit page) (world s)) = Inr (hd rs) \<and>
        (\<forall>k. k \<noteq> ''items'' \<longrightarrow> getitem r k = getitem (hd rs) k) \<and>
        (limit \<le> 100 \<longrightarrow> r = hd rs) \<and>
        (100 < limit \<longrightarrow> getitem r ''items'' = Inr (JList (concat (map items_of rs))))"
proof (induction "nat limit" arbitrary: limit page s r s' rule: less_induct)
  case less
  show ?case
  proof (cases "limit \<le> 100")
    case True
    then have h: "http_get get (page_url keyw limit page) s = (Inr r, s')"
      using less.prems by (simp add: retrieve_data_base)
    note e = http_get_env [OF h]
    have "transcript s' = transcript s @ zip (page_requests keyw limit page) (map Inr [r])"
      using e True by (simp add: page_requests_base)
    moreover have "length [r] = pages limit"
      using True by (simp add: pages_def)
    moreover have "fst (get (page_url keyw limit page) (world s)) = Inr (hd [r])"
      using e by simp
    ultimately show ?thesis
      using True by (intro exI [of _ "[r]"]) simp
  next
    case False
    then have l: "100 < limit" by simp
    from retrieve_data_Inr_step [OF l less.prems]
    obtain d xs s1 rest extra ys where
      h: "http_get get (page_url keyw limit page) s = (Inr (JDict d), s1)" and
      d: "map_of d ''items'' = Some (JList xs)" and
      rec: "retrieve_data get keyw (limit - 100) (page + 1) s1 = (Inr rest, s')" and
      g: "dict_get rest ''items'' (JList []) = Inr extra" and
      it: "py_iter extra = Inr ys" and
      r: "r = JDict (AList.update ''items'' (JList (xs @ ys)) d)"
      by blast
    note e = http_get_env [OF h]
    have "nat (limit - 100) < nat limit" using l by simp
    from less.hyps [OF this rec] obtain rs where
      rs: "transcript s' = transcript s1 @ zip (page_requests keyw (limit - 100) (page + 1)) (map Inr rs)"
          "length rs = pages (limit - 100)"
          "items_of rest = concat (map items_of rs)"
      by blast
    let ?rs = "JDict d # rs"
    have ys: "items_of rest = ys"
      using g it by (simp add: items_of_def)
    have xs: "items_of (JDict d) = xs"
      using d by (simp add: items_of_def dict_get_def py_iter_def)
    have cat: "concat (map items_of ?rs) = xs @ ys"
      using xs ys rs(3) by simp
    have 1: "transcript s' = transcript s @ zip (page_requests keyw limit page) (map Inr ?rs)"
      using rs(1) e by (simp add: page_requests_step [OF l])
    have 2: "length ?rs = pages limit"
      using rs(2) by (simp add: pages_step [OF l])
    have 3: "items_of r = concat (map items_of ?rs)"
      unfolding cat r by (rule items_of_update)
    have 4: "fst (get (page_url keyw limit page) (world s)) = Inr (hd ?rs)"
      using e by simp
    have 5: "\<forall>k. k \<noteq> ''items'' \<longrightarrow> getitem r k = getitem (hd ?rs) k"
      unfolding r by (simp add: getitem_def update_conv')
    have 6: "getitem r ''items'' = Inr (JList (concat (map items_of ?rs)))"
      unfolding cat r by (simp add: getitem_def update_conv')
    show ?thesis
      using 1 2 3 4 5 6 l by (intro exI [of _ ?rs]) simp
  qed
qed


section \<open>The loop of main\<close>

lemma filter_dict_not_dict:
  "filter_dict JNull K = Inl AttributeError"
  "filter_dict (JBool b) K = Inl AttributeError"
  "filter_dict (JInt i) K = Inl AttributeError"
  "filter_dict (JFloat f) K = Inl AttributeError"
  "filter_dict (JStr str) K = Inl AttributeError"
  "filter_dict (JList xs) K = Inl AttributeError"
  by (simp_all add: filter_dict_def)

lemma owner_in_DATA_KEYS: "''owner'' \<in> DATA_KEYS"
  by (simp add: DATA_KEYS_def)

lemma filter_item_Inr:
  "filter_item x = Inr y \<longleftrightarrow>
   (\<exists>d ow. x = JDict d \<and> map_of d ''owner'' = Some (JDict ow) \<and>
      y = JDict (AList.update ''owner'' (JDict (AList.restrict OWNER_KEYS ow))
                   (AList.restrict DATA_KEYS d)))"
proof (cases x)
  case (JDict d)
  show ?thesis
  proof (cases "map_of d ''owner''")
    case None
    then show ?thesis
      using JDict by (simp add: filter_item_def filter_dict_restrict getitem_def owner_in_DATA_KEYS)
  next
    case (Some v)
    show ?thesis
    proof (cases v)
      case (JDict ow)
      then show ?thesis
        using Some \<open>x = JDict d\<close>
        by (auto simp: filter_item_def filter_dict_restrict getitem_def owner_in_DATA_KEYS)
    qed (use Some \<open>x = JDict d\<close> in
          \<open>simp_all add: filter_item_def filter_dict_restrict getitem_def owner_in_DATA_KEYS
             filter_dict_not_dict\<close>)
  qed
qed (simp_all add: filter_item_def filter_dict_not_dict)

lemma filter_items_Inr:
  "filter_items xs = Inr ys \<longleftrightarrow> list_all2 (\<lambda>x y. filter_item x = Inr y) xs ys"
proof (induction xs arbitrary: ys)
  case Nil
  then show ?case by auto
next
  case (Cons x xs)
  show ?case
    by (cases ys) (auto simp: Cons.IH [symmetric] split: sum.splits)
qed

lemma main_Done:
  assumes "main get keyword limit s = (Done, s')"
  shows "\<exists>data s1 its xs xs1 total_count.
           1 \<le> limit \<and> limit \<le> 1000 \<and>
           retrieve_data get keyword limit 1 s = (Inr data, s1) \<and>
           getitem data ''items'' = Inr its \<and> py_iter its = Inr xs \<and>
           filter_items xs = Inr xs1 \<and>
           getitem data ''total_count'' = Inr total_count \<and>
           s' = s1\<lparr>stdout := stdout s1 @
                  [Json_dumps 4 (JDict [(''keyword'', JStr keyword),
                                        (''repository_limit'', JInt limit),
                                        (''total_repositories'', total_count),
                                        (''repo_list'', (case its of JList _ \<Rightarrow> JList xs1 | _ \<Rightarrow> its))])]\<rparr>"
  using assms unfolding main_def
  by (auto simp: Let_def split: if_splits prod.splits sum.splits)

lemma filter_item_sample: "filter_item sample_repo = Inr sample_repo_filtered"
  by (simp add: sample_repo_def sample_repo_filtered_def filter_item_Inr DATA_KEYS_def OWNER_KEYS_def)

section \<open>Runs and their exchanges\<close>

lemma responses_zip:
  "length us = length rs \<Longrightarrow>
   concat (map (\<lambda>(url, r). case r of Inl e \<Rightarrow> [] | Inr doc \<Rightarrow> [doc]) (zip us (map Inr rs))) = rs"
  by (induction us rs rule: list_induct2) simp_all

lemma run_exchanges:
  assumes "transcript s' = transcript s @ zip us (map Inr rs)" and "length us = length rs"
  shows "requests s s' = us" and "responses s s' = rs"
  using assms by (simp_all add: requests_def responses_def responses_zip)

lemma length_page_requests: "length (page_requests keyw limit page) = pages limit"
  by (simp add: page_requests_def)

lemma pages_ceiling: "1 \<le> limit \<Longrightarrow> int (pages limit) = \<lceil>real_of_int limit / 100\<rceil>"
proof -
  assume l: "1 \<le> limit"
  show ?thesis
  proof (cases "limit \<le> 100")
    case True
    have "(limit - 1) div 100 = 0"
      using l True by (intro div_pos_pos_trivial) simp_all
    then have "(limit + 99) div 100 = 1"
      by (simp add: div100_step)
    then show ?thesis
      using True by (simp add: pages_def ceil100)
  next
    case False
    then have "0 \<le> (limit + 99) div 100"
      by (simp only: pos_imp_zdiv_nonneg_iff)
    then show ?thesis
      using False by (simp add: pages_def ceil100)
  qed
qed

lemma retrieve_data_requests:
  assumes "retrieve_data get keyw limit page s = (res, s')"
  shows "1 \<le> length (requests s s')" and "length (requests s s') \<le> pages limit"
    and "requests s s' = take (length (requests s s')) (page_requests keyw limit page)"
    and "stdout s' = stdout s"
proof -
  from retrieve_data_transcript [OF assms] obtain ex where
    ex: "transcript s' = transcript s @ ex" "stdout s' = stdout s" "ex \<noteq> []"
        "length ex \<le> pages limit" "map fst ex = take (length ex) (page_requests keyw limit page)"
    by blast
  have r: "requests s s' = map fst ex"
    using ex(1) by (simp add: requests_def)
  show "1 \<le> length (requests s s')"
    using ex(3) unfolding r by (cases ex) simp_all
  show "length (requests s s') \<le> pages limit"
    using ex(4) unfolding r by simp
  show "requests s s' = take (length (requests s s')) (page_requests keyw limit page)"
    unfolding r by (subst length_map) (rule ex(5))
  show "stdout s' = stdout s" by (rule ex(2))
qed

lemma retrieve_data_returns_exchanges:
  assumes "retrieve_data get keyw limit page s = (Inr r, s')"
  shows "requests s s' = page_requests keyw limit page"
    and "length (responses s s') = pages limit"
    and "items_of r = concat (map items_of (responses s s'))"
    and "fst (get (page_url keyw limit page) (world s)) = Inr (hd (responses s s'))"
    and "k \<noteq> ''items'' \<Longrightarrow> getitem r k = getitem (hd (responses s s')) k"
    and "limit \<le> 100 \<Longrightarrow> r = hd (responses s s')"
    and "100 < limit \<Longrightarrow> getitem r ''items'' = Inr (JList (concat (map items_of (responses s s'))))"
proof -
  from retrieve_data_returns [OF assms] obtain rs where
    rs: "transcript s' = transcript s @ zip (page_requests keyw limit page) (map Inr rs)"
        "length rs = pages limit"
        "items_of r = concat (map items_of rs)"
        "fst (get (page_url keyw limit page) (world s)) = Inr (hd rs)"
        "\<forall>k. k \<noteq> ''items'' \<longrightarrow> getitem r k = getitem (hd rs) k"
        "limit \<le> 100 \<longrightarrow> r = hd rs"
        "100 < limit \<longrightarrow> getitem r ''items'' = Inr (JList (concat (map items_of rs)))"
    by blast
  have len: "length (page_requests keyw limit page) = length rs"
    using rs(2) by (simp add: length_page_requests)
  note ex = run_exchanges [OF rs(1) len]
  show "requests s s' = page_requests keyw limit page" by (rule ex(1))
  show "length (responses s s') = pages limit" using rs(2) ex(2) by simp
  show "items_of r = concat (map items_of (responses s s'))" using rs(3) ex(2) by simp
  show "fst (get (page_url keyw limit page) (world s)) = Inr (hd (responses s s'))"
    using rs(4) ex(2) by simp
  show "k \<noteq> ''items'' \<Longrightarrow> getitem r k = getitem (hd (responses s s')) k"
    using rs(5) ex(2) by simp
  show "limit \<le> 100 \<Longrightarrow> r = hd (responses s s')"
    using rs(6) ex(2) by simp
  show "100 < limit \<Longrightarrow> getitem r ''items'' = Inr (JList (concat (map items_of (responses s s'))))"
    using rs(7) ex(2) by simp
qed

lemma filter_items_dicts:
  "filter_items xs = Inr ys \<Longrightarrow> \<forall>x \<in> set xs. \<exists>d. x = JDict d"
  by (induction xs arbitrary: ys) (auto simp: filter_item_Inr split: sum.splits)

lemma repo_list_iter:
  assumes "py_iter its = Inr xs" and "filter_items xs = Inr xs1"
  shows "py_iter (case its of JList _ \<Rightarrow> JList xs1 | _ \<Rightarrow> its) = Inr xs1"
proof (cases its)
  case (JList zs)
  then show ?thesis by (simp add: py_iter_def)
next
  case (JStr str)
  then have "xs = map (\<lambda>c. JStr [c]) str"
    using assms(1) by (simp add: py_iter_def)
  with filter_items_dicts [OF assms(2)] have "str = []"
    by (cases str) auto
  then show ?thesis
    using assms JStr by (simp add: py_iter_def)
next
  case (JDict d)
  then have xs: "xs = map JStr (remdups (map fst d))"
    using assms(1) by (simp add: py_iter_def)
  with filter_items_dicts [OF assms(2)] have "remdups (map fst d) = []"
    by (cases "remdups (map fst d)") auto
  then show ?thesis
    using assms JDict xs by (simp add: py_iter_def)
qed (use assms in \<open>simp_all add: py_iter_def\<close>)

lemma main_Done_report:
  assumes "main get keyword limit s = (Done, s')"
  shows "\<exists>total_count repo_list ys.
           stdout s' = stdout s @
              [Json_dumps 4 (JDict [(''keyword'', JStr keyword),
                                    (''repository_limit'', JInt limit),
                                    (''total_repositories'', total_count),
                                    (''repo_list'', repo_list)])] \<and>
           getitem (hd (responses s s')) ''total_count'' = Inr total_count \<and>
           py_iter repo_list = Inr ys \<and>
           filter_items (concat (map items_of (responses s s'))) = Inr ys \<and>
           requests s s' = page_requests keyword limit 1 \<and>
           length (responses s s') = pages limit \<and>
           fst (get (page_url keyword limit 1) (world s)) = Inr (hd (responses s s')) \<and>
           1 \<le> limit \<and> limit \<le> 1000"
proof -
  from main_Done [OF assms] obtain data s1 its xs xs1 total_count where
    m: "1 \<le> limit" "limit \<le> 1000"
       "retrieve_data get keyword limit 1 s = (Inr data, s1)"
       "getitem data ''items'' = Inr its" "py_iter its = Inr xs"
       "filter_items xs = Inr xs1"
       "getitem data ''total_count'' = Inr total_count"
       "s' = s1\<lparr>stdout := stdout s1 @
                  [Json_dumps 4 (JDict [(''keyword'', JStr keyword),
                                        (''repository_limit'', JInt limit),
                                        (''total_repositories'', total_count),
                                        (''repo_list'', (case its of JList _ \<Rightarrow> JList xs1 | _ \<Rightarrow> its))])]\<rparr>"
    by blast
  note r = retrieve_data_returns_exchanges [OF m(3)]
  have same: "requests s s' = requests s s1" "responses s s' = responses s s1"
    using m(8) by (simp_all add: requests_def responses_def)
  have out: "stdout s1 = stdout s"
    using retrieve_data_requests(4) [OF m(3)] .
  have items: "items_of data = xs"
    using m(4,5) by (cases data) (auto simp: items_of_def getitem_def dict_get_def split: option.splits)
  have total: "getitem (hd (responses s s')) ''total_count'' = Inr total_count"
    using r(5) [of "''total_count''"] m(7) same by simp
  have "stdout s' = stdout s @
              [Json_dumps 4 (JDict [(''keyword'', JStr keyword),
                                    (''repository_limit'', JInt limit),
                                    (''total_repositories'', total_count),
                                    (''repo_list'', (case its of JList _ \<Rightarrow> JList xs1 | _ \<Rightarrow> its))])]"
    using m(8) out by simp
  moreover have "filter_items (concat (map items_of (responses s s'))) = Inr xs1"
    using m(6) items r(3) same by simp
  moreover note total repo_list_iter [OF m(5,6)] r(1,2,4) m(1,2)
  ultimately show ?thesis
    unfolding same by blast
qed

lemma retrieve_data_merged:
  assumes "100 < limit" and "retrieve_data get keyw limit page s = (Inr r, s')"
  shows "\<exists>d. hd (responses s s') = JDict d \<and>
             r = JDict (AList.update ''items'' (JList (concat (map items_of (responses s s')))) d)"
proof -
  from retrieve_data_Inr_step [OF assms]
  obtain d xs s1 rest extra ys where
    h: "http_get get (page_url keyw limit page) s = (Inr (JDict d), s1)" and
    r: "r = JDict (AList.update ''items'' (JList (xs @ ys)) d)"
    by blast
  note ex = retrieve_data_returns_exchanges [OF assms(2)]
  have "hd (responses s s') = JDict d"
    using ex(4) http_get_env [OF h] by simp
  moreover have "xs @ ys = concat (map items_of (responses s s'))"
    using ex(7) [OF assms(1)] unfolding r by (simp add: getitem_def update_conv')
  ultimately show ?thesis
    using r by simp
qed


lemma start_simps:
  "transcript (start w) = []" "world (start w) = w" "stdout (start w) = []"
  by (simp_all add: start_def)

lemma canned_two_pages:
  "retrieve_data canned keyw 150 1 (start [page_doc n xs, page_doc m ys]) =
     (Inr (page_doc n (xs @ ys)),
      \<lparr>transcript = [(page_url keyw 150 1, Inr (page_doc n xs)),
                     (page_url keyw 50 2, Inr (page_doc m ys))],
       world = [], stdout = []\<rparr>)"
  by (simp add: retrieve_data.simps [of _ _ 150] retrieve_data_base http_get_def canned_def
      start_def page_doc_def getitem_def dict_get_def py_iter_def)

lemma main_in_range:
  assumes "1 \<le> limit" and "limit \<le> 1000" and "main get keyword limit s = (st, s')"
  shows "\<exists>res s1. retrieve_data get keyword limit 1 s = (res, s1) \<and>
           ((\<exists>e. st = Uncaught e \<and> s' = s1) \<or>
            (st = Done \<and> (\<exists>doc. s' = s1\<lparr>stdout := stdout s1 @ [Json_dumps 4 doc]\<rparr>)))"
  using assms unfolding main_def
  by (auto simp: Let_def split: prod.splits sum.splits)

lemma canned_one_page:
  "limit \<le> 100 \<Longrightarrow>
   retrieve_data canned keyw limit 1 (start [doc]) =
     (Inr doc, \<lparr>transcript = [(page_url keyw limit 1, Inr doc)], world = [], stdout = []\<rparr>)"
  by (simp add: retrieve_data_base http_get_def canned_def start_def)

lemma main_one_page:
  "main canned ''raft'' 1 (start [page_doc 42 [sample_repo]]) =
     (Done,
      \<lparr>transcript = [(page_url ''raft'' 1 1, Inr (page_doc 42 [sample_repo]))], world = [],
       stdout = [Json_dumps 4 (JDict [(''keyword'', JStr ''raft''),
                                      (''repository_limit'', JInt 1),
                                      (''total_repositories'', JInt 42),
                                      (''repo_list'', JList [sample_repo_filtered])])]\<rparr>)"
  by (simp add: main_def canned_one_page page_doc_def getitem_def py_iter_def filter_item_sample)

lemma main_two_pages:
  "main canned ''kv-store'' 150 (start [page_doc 120 [sample_repo], page_doc 999 [sample_repo]]) =
     (Done,
      \<lparr>transcript = [(page_url ''kv-store'' 150 1, Inr (page_doc 120 [sample_repo])),
                     (page_url ''kv-store'' 50 2, Inr (page_doc 999 [sample_repo]))],
       world = [],
       stdout = [Json_dumps 4 (JDict [(''keyword'', JStr ''kv-store''),
                                      (''repository_limit'', JInt 150),
                                      (''total_repositories'', JInt 120),
                                      (''repo_list'', JList [sample_repo_filtered, sample_repo_filtered])])]\<rparr>)"
  unfolding main_def canned_two_pages
  by (simp add: page_doc_def getitem_def py_iter_def filter_item_sample)


lemma filter_item_calls:
  assumes "filter_item x = Inr y"
  shows "\<exists>dx dx1 ox ox1.
           x = JDict dx \<and> filter_dict (JDict dx) DATA_KEYS = Inr (JDict dx1) \<and>
           map_of dx1 ''owner'' = Some (JDict ox) \<and>
           filter_dict (JDict ox) OWNER_KEYS = Inr (JDict ox1) \<and>
           y = JDict (AList.update ''owner'' (JDict ox1) dx1)"
proof -
  from assms obtain d ow where
    x: "x = JDict d" and o: "map_of d ''owner'' = Some (JDict ow)" and
    y: "y = JDict (AList.update ''owner'' (JDict (AList.restrict OWNER_KEYS ow))
                     (AList.restrict DATA_KEYS d))"
    unfolding filter_item_Inr by blast
  have "map_of (AList.restrict DATA_KEYS d) ''owner'' = Some (JDict ow)"
    using o owner_in_DATA_KEYS by simp
  then show ?thesis
    using x y filter_dict_restrict by blast
qed

lemma items_of_page_doc: "items_of (page_doc n xs) = xs"
  by (simp add: page_doc_def items_of_def dict_get_def py_iter_def)

lemma responses_one_page:
  "responses (start [page_doc 42 [sample_repo]])
     (snd (main canned ''raft'' 1 (start [page_doc 42 [sample_repo]]))) = [page_doc 42 [sample_repo]]"
  by (simp add: main_one_page responses_def start_simps)

lemma list_all2_single: "list_all2 R [x] [y] \<Longrightarrow> R x y"
  by simp

lemma filter_items_length: "filter_items xs = Inr ys \<Longrightarrow> length ys = length xs"
  by (simp add: filter_items_Inr list_all2_lengthD)

lemma main_overfull_page:
  "main canned ''raft'' 1 (start [page_doc 2 [sample_repo, sample_repo]]) =
     (Done,
      \<lparr>transcript = [(page_url ''raft'' 1 1, Inr (page_doc 2 [sample_repo, sample_repo]))],
       world = [],
       stdout = [Json_dumps 4 (JDict [(''keyword'', JStr ''raft''),
                                      (''repository_limit'', JInt 1),
                                      (''total_repositories'', JInt 2),
                                      (''repo_list'', JList [sample_repo_filtered, sample_repo_filtered])])]\<rparr>)"
  by (simp add: main_def canned_one_page page_doc_def getitem_def py_iter_def filter_item_sample)

lemma main_rate_limited:
  "main canned ''raft'' 250
     (start [page_doc 250 [sample_repo], rate_limited,
             page_doc 250 [sample_repo]]) =
   (Uncaught (KeyError ''items''),
    \<lparr>transcript = [(page_url ''raft'' 250 1, Inr (page_doc 250 [sample_repo])),
                   (page_url ''raft'' 150 2, Inr (rate_limited))],
     world = [page_doc 250 [sample_repo]], stdout = []\<rparr>)"
  by (simp add: main_def retrieve_data.simps [of _ _ 250] retrieve_data.simps [of _ _ 150]
      http_get_def canned_def start_def page_doc_def rate_limited_def getitem_def)

lemma page_url_text:
  "page_url keyw limit page =
     ''https://api.github.com/search/repositories?q='' @ keyw @
     ''&sort=forks&order=desc&per_page='' @ str_int (min limit 100) @
     ''&page='' @ str_int page"
  by (simp add: page_url_def BASE_URL_def QUALIFIERS_def per_page_def min_def)

lemma str_int_samples:
  "str_int 1 = ''1''" "str_int 2 = ''2''" "str_int 50 = ''50''" "str_int 100 = ''100''"
  by (simp_all add: str_int_def str_nat.simps)

lemma page_url_samples:
  "page_url ''kv-store'' 150 1 =
     ''https://api.github.com/search/repositories?q=kv-store&sort=forks&order=desc&per_page=100&page=1''"
  "page_url ''kv-store'' 50 2 =
     ''https://api.github.com/search/repositories?q=kv-store&sort=forks&order=desc&per_page=50&page=2''"
  by (simp_all add: page_url_text str_int_samples)

lemma filter_item_repo: "filter_item (repo i) = Inr (repo i)"
  by (simp add: repo_def filter_item_Inr DATA_KEYS_def OWNER_KEYS_def)

lemma filter_items_repo: "filter_items (map repo is) = Inr (map repo is)"
  by (induction "is") (simp_all add: filter_item_repo)



lemma requests_one: "transcript s1 = transcript s @ [(url, r)] \<Longrightarrow> requests s s1 = [url]"
  by (simp add: requests_def)


lemma canned_first_page_refused:
  "retrieve_data canned keyw 150 1 (start (rate_limited # docs)) =
     (Inl (KeyError ''items''),
      \<lparr>transcript = [(page_url keyw 150 1, Inr rate_limited)], world = docs, stdout = []\<rparr>)"
  by (simp add: retrieve_data.simps [of _ _ 150] http_get_def canned_def start_def
      rate_limited_def getitem_def)

lemma canned_connection_lost:
  "retrieve_data canned keyw 250 1 (start [page_doc n xs]) =
     (Inl ConnectionError,
      \<lparr>transcript = [(page_url keyw 250 1, Inr (page_doc n xs)),
                     (page_url keyw 150 2, Inl ConnectionError)],
       world = [], stdout = []\<rparr>)"
  by (simp add: retrieve_data.simps [of _ _ 250] retrieve_data.simps [of _ _ 150] http_get_def
      canned_def start_def page_doc_def getitem_def)

lemma canned_three_pages_middle_refused:
  "retrieve_data canned keyw 250 1 (start [page_doc n xs, rate_limited, doc]) =
     (Inl (KeyError ''items''),
      \<lparr>transcript = [(page_url keyw 250 1, Inr (page_doc n xs)),
                     (page_url keyw 150 2, Inr rate_limited)],
       world = [doc], stdout = []\<rparr>)"
  by (simp add: retrieve_data.simps [of _ _ 250] retrieve_data.simps [of _ _ 150] http_get_def
      canned_def start_def page_doc_def rate_limited_def getitem_def)

lemma canned_three_pages_last_refused:
  "retrieve_data canned keyw 250 1 (start [page_doc n xs, page_doc m ys, rate_limited]) =
     (Inr (page_doc n (xs @ ys)),
      \<lparr>transcript = [(page_url keyw 250 1, Inr (page_doc n xs)),
                     (page_url keyw 150 2, Inr (page_doc m ys)),
                     (page_url keyw 50 3, Inr rate_limited)],
       world = [], stdout = []\<rparr>)"
  by (simp add: retrieve_data.simps [of _ _ 250] retrieve_data.simps [of _ _ 150]
      retrieve_data_base http_get_def canned_def start_def page_doc_def rate_limited_def
      getitem_def dict_get_def py_iter_def)

lemma main_last_page_refused:
  "main canned ''raft'' 250
     (start [page_doc 250 [sample_repo], page_doc 250 [sample_repo], rate_limited]) =
   (Done,
    \<lparr>transcript = [(page_url ''raft'' 250 1, Inr (page_doc 250 [sample_repo])),
                   (page_url ''raft'' 150 2, Inr (page_doc 250 [sample_repo])),
                   (page_url ''raft'' 50 3, Inr rate_limited)],
     world = [],
     stdout = [Json_dumps 4 (JDict [(''keyword'', JStr ''raft''),
                                    (''repository_limit'', JInt 250),
                                    (''total_repositories'', JInt 250),
                                    (''repo_list'', JList [sample_repo_filtered, sample_repo_filtered])])]\<rparr>)"
  unfolding main_def canned_three_pages_last_refused
  by (simp add: page_doc_def getitem_def py_iter_def filter_item_sample)

lemma paged_pages:
  "paged_answer (map repo [1..<121]) 100 1 = page_doc 120 (map repo [1..<101])"
  "paged_answer (map repo [1..<121]) 50 2 = page_doc 120 (map repo [51..<101])"
  by (simp_all add: paged_answer_def take_map drop_map del: upt_rec_numeral)

lemma main_paged:
  "main canned ''kv-store'' 150
     (start [paged_answer (map repo [1..<121]) 100 1, paged_answer (map repo [1..<121]) 50 2]) =
   (Done,
    \<lparr>transcript = [(page_url ''kv-store'' 150 1, Inr (page_doc 120 (map repo [1..<101]))),
                   (page_url ''kv-store'' 50 2, Inr (page_doc 120 (map repo [51..<101])))],
     world = [],
     stdout = [Json_dumps 4 (JDict [(''keyword'', JStr ''kv-store''),
                                    (''repository_limit'', JInt 150),
                                    (''total_repositories'', JInt 120),
                                    (''repo_list'', JList (map repo ([1..<101] @ [51..<101])))])]\<rparr>)"
  unfolding main_def paged_pages canned_two_pages
  by (simp add: page_doc_def getitem_def py_iter_def filter_items_repo map_append [symmetric]
        del: upt_rec_numeral map_append)



section \<open>Claims\<close>

text \<open>
  C8: \<^verbatim>\<open>_filter_dict\<close> is key-set intersection and is idempotent. For every dictionary
  \<open>d\<close> and key set \<open>K\<close> the call returns without raising, the keys left are the keys of
  \<open>d\<close> that are in \<open>K\<close>, and a second call with the same key set changes nothing.
\<close>

theorem filter_dict_idempotent_intersection:
  "\<exists>d'. filter_dict (JDict d) K = Inr (JDict d') \<and>
        fst ` set d' = fst ` set d \<inter> K \<and>
        filter_dict (JDict d') K = Inr (JDict d')"
proof (intro exI conjI)
  show "filter_dict (JDict d) K = Inr (JDict (AList.restrict K d))"
    by (rule filter_dict_restrict)
  show "fst ` set (AList.restrict K d) = fst ` set d \<inter> K"
    by simp
  show "filter_dict (JDict (AList.restrict K d)) K = Inr (JDict (AList.restrict K d))"
    by (simp add: filter_dict_restrict)
qed

text \<open>
  C2: the number of requests. The claim that \<^verbatim>\<open>_retrieve_data\<close> issues exactly
  \<open>\<lceil>limit/100\<rceil>\<close> requests for every limit in 1..1000 does not hold for a call that
  raises, since nothing is caught and the later pages are then not asked: with a limit
  of 250 and a connection that fails at the second request there are two requests, not
  three; with a limit of 150 and a first response without \<^verbatim>\<open>items\<close> there is one
  request, not two.
\<close>

theorem retrieve_data_request_count_counterexample:
  "fst (retrieve_data canned ''raft'' 250 1 (start [page_doc 300 [sample_repo]])) =
     Inl ConnectionError \<and>
   length (requests (start [page_doc 300 [sample_repo]])
      (snd (retrieve_data canned ''raft'' 250 1 (start [page_doc 300 [sample_repo]])))) = 2 \<and>
   \<lceil>real_of_int 250 / 100\<rceil> = 3 \<and>
   fst (retrieve_data canned ''raft'' 150 1 (start [rate_limited])) = Inl (KeyError ''items'') \<and>
   length (requests (start [rate_limited])
      (snd (retrieve_data canned ''raft'' 150 1 (start [rate_limited])))) = 1 \<and>
   \<lceil>real_of_int 150 / 100\<rceil> = 2"
  by (simp add: canned_connection_lost canned_first_page_refused requests_def start_simps ceil100)

text \<open>
  C2, as amended: \<^verbatim>\<open>_retrieve_data\<close> asks for \<open>\<lceil>limit/100\<rceil>\<close> pages. For every limit from 1 on
  (so for every limit in 1..1000), a call that returns has issued exactly
  \<open>\<lceil>limit/100\<rceil>\<close> requests: one when the limit is at most 100, two when it is in
  101..200, and so on. A call that raises stops at the failing page: whatever the
  outcome there is at least one request and never more than \<open>\<lceil>limit/100\<rceil>\<close>, and
  exactly one when the limit is at most 100.
\<close>

theorem retrieve_data_request_count:
  assumes "1 \<le> limit" and "retrieve_data get keyw limit page s = (res, s')"
  shows "1 \<le> length (requests s s') \<and>
         int (length (requests s s')) \<le> \<lceil>real_of_int limit / 100\<rceil> \<and>
         (limit \<le> 100 \<longrightarrow> length (requests s s') = 1) \<and>
         (\<forall>r. res = Inr r \<longrightarrow> int (length (requests s s')) = \<lceil>real_of_int limit / 100\<rceil>)"
proof (intro conjI allI impI)
  note b = retrieve_data_requests [OF assms(2)]
  show "1 \<le> length (requests s s')" by (rule b(1))
  show "int (length (requests s s')) \<le> \<lceil>real_of_int limit / 100\<rceil>"
    using b(2) pages_ceiling [OF assms(1)] by simp
  show "length (requests s s') = 1" if "limit \<le> 100"
    using b(1,2) that by (simp add: pages_def)
  show "int (length (requests s s')) = \<lceil>real_of_int limit / 100\<rceil>" if "res = Inr r" for r
    using retrieve_data_returns_exchanges(1) [of get keyw limit page s r s'] assms that
    by (simp add: length_page_requests pages_ceiling)
qed

theorem retrieve_data_request_count_witness:
  "length (requests (start [page_doc 120 [sample_repo], page_doc 120 [sample_repo]])
      (snd (retrieve_data canned ''kv-store'' 150 1
              (start [page_doc 120 [sample_repo], page_doc 120 [sample_repo]])))) = 2 \<and>
   \<lceil>real_of_int 150 / 100\<rceil> = 2"
  using retrieve_data_request_count [of 150 canned "''kv-store''" 1
      "start [page_doc 120 [sample_repo], page_doc 120 [sample_repo]]"
      "Inr (page_doc 120 [sample_repo, sample_repo])"
      "snd (retrieve_data canned ''kv-store'' 150 1
              (start [page_doc 120 [sample_repo], page_doc 120 [sample_repo]]))"]
  by (simp add: canned_two_pages)

text \<open>
  C4: the check of the limit. For a limit below 1 or above 1000 the program prints the
  error message on standard output and exits with status 1; nothing else has changed,
  so no request has been issued. For a limit in 1..1000 the branch is not taken: the
  run does not exit with a status, it issues at least one request, and what it prints,
  if anything, is the report.
\<close>

theorem limit_validation:
  assumes "main get keyword limit s = (st, s')"
  shows "(limit < 1 \<or> 1000 < limit \<longrightarrow>
            st = Exit 1 \<and>
            s' = s\<lparr>stdout := stdout s @
                   [Line (''ERROR: limit ['' @ str_int limit @ ''] is not in the range 1-1000'')]\<rparr> \<and>
            requests s s' = [] \<and> world s' = world s) \<and>
         (1 \<le> limit \<and> limit \<le> 1000 \<longrightarrow>
            (\<forall>n. st \<noteq> Exit n) \<and> 1 \<le> length (requests s s') \<and>
            (stdout s' = stdout s \<or> (\<exists>doc. stdout s' = stdout s @ [Json_dumps 4 doc])))"
proof (intro conjI impI)
  assume out: "limit < 1 \<or> 1000 < limit"
  then have "main get keyword limit s =
      (Exit 1, s\<lparr>stdout := stdout s @
                   [Line (''ERROR: limit ['' @ str_int limit @ ''] is not in the range 1-1000'')]\<rparr>)"
    by (simp add: main_def)
  with assms show "st = Exit 1"
    and "s' = s\<lparr>stdout := stdout s @
                   [Line (''ERROR: limit ['' @ str_int limit @ ''] is not in the range 1-1000'')]\<rparr>"
    by simp_all
  then show "requests s s' = []" and "world s' = world s"
    by (simp_all add: requests_def)
next
  assume "1 \<le> limit \<and> limit \<le> 1000"
  then have "1 \<le> limit" "limit \<le> 1000" by simp_all
  from main_in_range [OF this assms] obtain res s1 where
    run: "retrieve_data get keyword limit 1 s = (res, s1)" and
    alt: "(\<exists>e. st = Uncaught e \<and> s' = s1) \<or>
          (st = Done \<and> (\<exists>doc. s' = s1\<lparr>stdout := stdout s1 @ [Json_dumps 4 doc]\<rparr>))"
    by blast
  note b = retrieve_data_requests [OF run]
  have same: "requests s s' = requests s s1"
    using alt by (auto simp: requests_def)
  show "\<forall>n. st \<noteq> Exit n"
    using alt by auto
  show "1 \<le> length (requests s s')"
    using b(1) same by simp
  show "stdout s' = stdout s \<or> (\<exists>doc. stdout s' = stdout s @ [Json_dumps 4 doc])"
    using alt b(4) by auto
qed

theorem limit_validation_witness:
  "fst (main canned ''raft'' 0 (start [])) = Exit 1 \<and>
   stdout (snd (main canned ''raft'' 1001 (start []))) =
     [Line ''ERROR: limit [1001] is not in the range 1-1000''] \<and>
   requests (start []) (snd (main canned ''raft'' 1001 (start []))) = [] \<and>
   fst (main canned ''raft'' 1 (start [page_doc 42 [sample_repo]])) \<noteq> Exit 1 \<and>
   1 \<le> length (requests (start [page_doc 42 [sample_repo]])
                  (snd (main canned ''raft'' 1 (start [page_doc 42 [sample_repo]]))))"
proof -
  have eq: "m = (fst m, snd m)" for m :: "status \<times> json list env"
    by simp
  have msg: "str_int 1001 = ''1001''"
    by (simp add: str_int_def str_nat.simps)
  show ?thesis
    using limit_validation [OF eq [of "main canned ''raft'' 0 (start [])"]]
      limit_validation [OF eq [of "main canned ''raft'' 1001 (start [])"]]
      limit_validation [OF eq [of "main canned ''raft'' 1 (start [page_doc 42 [sample_repo]])"]]
    by (simp add: msg start_simps requests_def)
qed

text \<open>
  C7: on a successful run the program adds exactly one line to standard output: what
  \<^verbatim>\<open>json.dumps\<close> with \<^verbatim>\<open>indent=4\<close> gives for a dictionary with the four keys
  \<^verbatim>\<open>keyword\<close>, \<^verbatim>\<open>repository_limit\<close>, \<^verbatim>\<open>total_repositories\<close> and \<^verbatim>\<open>repo_list\<close>,
  bound to the keyword searched, the limit asked, the \<^verbatim>\<open>total_count\<close> that the
  server reported (in the response to the first page) and the filtered list of the
  items of the responses.
\<close>

theorem report_printed:
  assumes "main get keyword limit s = (Done, s')"
  shows "\<exists>total_count repo_list ys.
           stdout s' = stdout s @
              [Json_dumps 4 (JDict [(''keyword'', JStr keyword),
                                    (''repository_limit'', JInt limit),
                                    (''total_repositories'', total_count),
                                    (''repo_list'', repo_list)])] \<and>
           getitem (hd (responses s s')) ''total_count'' = Inr total_count \<and>
           py_iter repo_list = Inr ys \<and>
           filter_items (concat (map items_of (responses s s'))) = Inr ys"
  using main_Done_report [OF assms] by blast

theorem report_printed_witness:
  "stdout (snd (main canned ''raft'' 1 (start [page_doc 42 [sample_repo]]))) =
     [Json_dumps 4 (JDict [(''keyword'', JStr ''raft''),
                           (''repository_limit'', JInt 1),
                           (''total_repositories'', JInt 42),
                           (''repo_list'', JList [sample_repo_filtered])])]"
proof -
  let ?s = "start [page_doc 42 [sample_repo]]"
  let ?out = "main canned ''raft'' 1 ?s"
  have run: "?out = (Done, snd ?out)"
    by (simp add: main_one_page)
  have resp: "responses ?s (snd ?out) = [page_doc 42 [sample_repo]]"
    by (simp add: main_one_page responses_def start_simps)
  have total: "getitem (page_doc 42 [sample_repo]) ''total_count'' = Inr (JInt 42)"
    by (simp add: page_doc_def getitem_def)
  have items: "items_of (page_doc 42 [sample_repo]) = [sample_repo]"
    by (simp add: page_doc_def items_of_def dict_get_def py_iter_def)
  from report_printed [OF run] obtain total_count repo_list ys where
    r: "stdout (snd ?out) = stdout ?s @
              [Json_dumps 4 (JDict [(''keyword'', JStr ''raft''),
                                    (''repository_limit'', JInt 1),
                                    (''total_repositories'', total_count),
                                    (''repo_list'', repo_list)])]"
       "getitem (hd (responses ?s (snd ?out))) ''total_count'' = Inr total_count"
       "py_iter repo_list = Inr ys"
       "filter_items (concat (map items_of (responses ?s (snd ?out)))) = Inr ys"
    by blast
  have "total_count = JInt 42"
    using r(2) unfolding resp by (simp add: total)
  moreover have ys: "ys = [sample_repo_filtered]"
    using r(4) unfolding resp by (simp add: items filter_item_sample)
  moreover have "repo_list = JList [sample_repo_filtered]"
    using r(1) by (simp add: main_one_page)
  ultimately show ?thesis
    using r(1) by (simp add: start_simps)
qed

text \<open>
  C9: the dictionary that \<^verbatim>\<open>_retrieve_data\<close> returns is the response to its first
  page with only \<^verbatim>\<open>items\<close> extended. When the call returns, every field other than
  \<^verbatim>\<open>items\<close> reads as in the first response (for a limit of at most 100 the result is
  that response; above 100 it is that dictionary with \<^verbatim>\<open>items\<close> bound to the merged
  list), so the \<^verbatim>\<open>total_count\<close> of later pages is not used; and the
  \<^verbatim>\<open>total_repositories\<close> that a successful run prints is the \<^verbatim>\<open>total_count\<close> of the
  response to page 1.
\<close>

theorem retrieve_data_keeps_first_page:
  "(retrieve_data get keyw limit page s = (Inr r, s') \<longrightarrow>
      (\<exists>r1. fst (get (page_url keyw limit page) (world s)) = Inr r1 \<and>
            hd (responses s s') = r1 \<and>
            (\<forall>k. k \<noteq> ''items'' \<longrightarrow> getitem r k = getitem r1 k) \<and>
            (limit \<le> 100 \<longrightarrow> r = r1) \<and>
            (100 < limit \<longrightarrow>
               (\<exists>d. r1 = JDict d \<and>
                    r = JDict (AList.update ''items''
                                 (JList (concat (map items_of (responses s s')))) d))))) \<and>
   (main get keyw limit s = (Done, s'') \<longrightarrow>
      (\<exists>r1 total_count repo_list.
          fst (get (page_url keyw limit 1) (world s)) = Inr r1 \<and>
          getitem r1 ''total_count'' = Inr total_count \<and>
          stdout s'' = stdout s @
              [Json_dumps 4 (JDict [(''keyword'', JStr keyw),
                                    (''repository_limit'', JInt limit),
                                    (''total_repositories'', total_count),
                                    (''repo_list'', repo_list)])]))"
proof (intro conjI impI)
  assume run: "retrieve_data get keyw limit page s = (Inr r, s')"
  note ex = retrieve_data_returns_exchanges [OF run]
  have "100 < limit \<longrightarrow>
          (\<exists>d. hd (responses s s') = JDict d \<and>
               r = JDict (AList.update ''items''
                            (JList (concat (map items_of (responses s s')))) d))"
    using retrieve_data_merged [OF _ run] by blast
  then show "\<exists>r1. fst (get (page_url keyw limit page) (world s)) = Inr r1 \<and>
            hd (responses s s') = r1 \<and>
            (\<forall>k. k \<noteq> ''items'' \<longrightarrow> getitem r k = getitem r1 k) \<and>
            (limit \<le> 100 \<longrightarrow> r = r1) \<and>
            (100 < limit \<longrightarrow>
               (\<exists>d. r1 = JDict d \<and>
                    r = JDict (AList.update ''items''
                                 (JList (concat (map items_of (responses s s')))) d)))"
    using ex(4,5,6) by (intro exI [of _ "hd (responses s s')"]) simp
next
  assume "main get keyw limit s = (Done, s'')"
  from main_Done_report [OF this]
  show "\<exists>r1 total_count repo_list.
          fst (get (page_url keyw limit 1) (world s)) = Inr r1 \<and>
          getitem r1 ''total_count'' = Inr total_count \<and>
          stdout s'' = stdout s @
              [Json_dumps 4 (JDict [(''keyword'', JStr keyw),
                                    (''repository_limit'', JInt limit),
                                    (''total_repositories'', total_count),
                                    (''repo_list'', repo_list)])]"
    by blast
qed

theorem retrieve_data_keeps_first_page_witness:
  "(\<exists>d. page_doc 120 [sample_repo] = JDict d \<and>
        fst (retrieve_data canned ''kv-store'' 150 1
               (start [page_doc 120 [sample_repo], page_doc 999 [sample_repo]])) =
          Inr (JDict (AList.update ''items'' (JList [sample_repo, sample_repo]) d))) \<and>
   (\<exists>repo_list.
        stdout (snd (main canned ''kv-store'' 150
                       (start [page_doc 120 [sample_repo], page_doc 999 [sample_repo]]))) =
          [Json_dumps 4 (JDict [(''keyword'', JStr ''kv-store''),
                                (''repository_limit'', JInt 150),
                                (''total_repositories'', JInt 120),
                                (''repo_list'', repo_list)])])"
proof -
  let ?s = "start [page_doc 120 [sample_repo], page_doc 999 [sample_repo]]"
  let ?out = "retrieve_data canned ''kv-store'' 150 1 ?s"
  let ?mout = "main canned ''kv-store'' 150 ?s"
  have run: "?out = (Inr (page_doc 120 [sample_repo, sample_repo]), snd ?out)"
    by (simp add: canned_two_pages)
  have mrun: "?mout = (Done, snd ?mout)"
    by (simp add: main_two_pages)
  have first: "fst (canned (page_url ''kv-store'' 150 1) (world ?s)) = Inr (page_doc 120 [sample_repo])"
    by (simp add: canned_def start_simps)
  have resp: "responses ?s (snd ?out) = [page_doc 120 [sample_repo], page_doc 999 [sample_repo]]"
    by (simp add: canned_two_pages responses_def start_simps)
  have items: "items_of (page_doc n xs) = xs" for n xs
    by (simp add: page_doc_def items_of_def dict_get_def py_iter_def)
  have total: "getitem (page_doc 120 [sample_repo]) ''total_count'' = Inr (JInt 120)"
    by (simp add: page_doc_def getitem_def)
  note t = retrieve_data_keeps_first_page
    [of canned "''kv-store''" 150 1 ?s "page_doc 120 [sample_repo, sample_repo]" "snd ?out"
        "snd ?mout"]
  from t run obtain r1 d where
    a: "fst (canned (page_url ''kv-store'' 150 1) (world ?s)) = Inr r1"
       "r1 = JDict d"
       "page_doc 120 [sample_repo, sample_repo] =
          JDict (AList.update ''items'' (JList (concat (map items_of (responses ?s (snd ?out))))) d)"
    by auto
  from t mrun obtain r2 total_count repo_list where
    b: "fst (canned (page_url ''kv-store'' 150 1) (world ?s)) = Inr r2"
       "getitem r2 ''total_count'' = Inr total_count"
       "stdout (snd ?mout) = stdout ?s @
          [Json_dumps 4 (JDict [(''keyword'', JStr ''kv-store''),
                                (''repository_limit'', JInt 150),
                                (''total_repositories'', total_count),
                                (''repo_list'', repo_list)])]"
    by blast
  have d1: "page_doc 120 [sample_repo] = JDict d"
    using a(1,2) first by simp
  have d2: "page_doc 120 [sample_repo, sample_repo] =
          JDict (AList.update ''items'' (JList [sample_repo, sample_repo]) d)"
    using a(3) by (simp add: resp items)
  have fo: "fst ?out = Inr (page_doc 120 [sample_repo, sample_repo])"
    by (simp add: canned_two_pages)
  have "fst ?out = Inr (JDict (AList.update ''items'' (JList [sample_repo, sample_repo]) d))"
    unfolding fo by (rule arg_cong [OF d2])
  with d1 have A: "\<exists>d. page_doc 120 [sample_repo] = JDict d \<and>
        fst ?out = Inr (JDict (AList.update ''items'' (JList [sample_repo, sample_repo]) d))"
    by blast
  have "total_count = JInt 120"
    using b(1,2) first total by simp
  with b(3) have B: "\<exists>repo_list.
        stdout (snd ?mout) =
          [Json_dumps 4 (JDict [(''keyword'', JStr ''kv-store''),
                                (''repository_limit'', JInt 150),
                                (''total_repositories'', JInt 120),
                                (''repo_list'', repo_list)])]"
    by (simp add: start_simps)
  from A B show ?thesis ..
qed



text \<open>
  C6: what \<^verbatim>\<open>_filter_dict\<close> changes and where it is applied. For every dictionary and
  key set the call returns the dictionary with every key outside the key set removed
  and every key of the key set bound as before. In a successful run of \<^verbatim>\<open>main\<close> each
  record of the printed \<^verbatim>\<open>repo_list\<close> is the item at the same position of the
  responses after one call of \<^verbatim>\<open>_filter_dict\<close> with \<^verbatim>\<open>DATA_KEYS\<close>, with its owner
  replaced by the owner after one call with \<^verbatim>\<open>OWNER_KEYS\<close>.
\<close>

theorem filter_dict_frame:
  "(\<exists>d'. filter_dict (JDict d) K = Inr (JDict d') \<and>
         (\<forall>k. k \<notin> K \<longrightarrow> k \<notin> fst ` set d') \<and>
         (\<forall>k. k \<in> K \<longrightarrow> map_of d' k = map_of d k)) \<and>
   (main get keyword limit s = (Done, s') \<longrightarrow>
      (\<exists>total_count repo_list ys.
          stdout s' = stdout s @
              [Json_dumps 4 (JDict [(''keyword'', JStr keyword),
                                    (''repository_limit'', JInt limit),
                                    (''total_repositories'', total_count),
                                    (''repo_list'', repo_list)])] \<and>
          py_iter repo_list = Inr ys \<and>
          list_all2
            (\<lambda>x y. \<exists>dx dx1 ox ox1.
               x = JDict dx \<and> filter_dict (JDict dx) DATA_KEYS = Inr (JDict dx1) \<and>
               map_of dx1 ''owner'' = Some (JDict ox) \<and>
               filter_dict (JDict ox) OWNER_KEYS = Inr (JDict ox1) \<and>
               y = JDict (AList.update ''owner'' (JDict ox1) dx1))
            (concat (map items_of (responses s s'))) ys))"
proof (intro conjI impI)
  show "\<exists>d'. filter_dict (JDict d) K = Inr (JDict d') \<and>
         (\<forall>k. k \<notin> K \<longrightarrow> k \<notin> fst ` set d') \<and>
         (\<forall>k. k \<in> K \<longrightarrow> map_of d' k = map_of d k)"
    by (intro exI [of _ "AList.restrict K d"] conjI) (simp_all add: filter_dict_restrict)
next
  assume "main get keyword limit s = (Done, s')"
  from main_Done_report [OF this] obtain total_count repo_list ys where
    r: "stdout s' = stdout s @
              [Json_dumps 4 (JDict [(''keyword'', JStr keyword),
                                    (''repository_limit'', JInt limit),
                                    (''total_repositories'', total_count),
                                    (''repo_list'', repo_list)])]"
       "py_iter repo_list = Inr ys"
       "filter_items (concat (map items_of (responses s s'))) = Inr ys"
    by blast
  have "list_all2 (\<lambda>x y. filter_item x = Inr y) (concat (map items_of (responses s s'))) ys"
    using r(3) by (simp add: filter_items_Inr)
  then have "list_all2
            (\<lambda>x y. \<exists>dx dx1 ox ox1.
               x = JDict dx \<and> filter_dict (JDict dx) DATA_KEYS = Inr (JDict dx1) \<and>
               map_of dx1 ''owner'' = Some (JDict ox) \<and>
               filter_dict (JDict ox) OWNER_KEYS = Inr (JDict ox1) \<and>
               y = JDict (AList.update ''owner'' (JDict ox1) dx1))
            (concat (map items_of (responses s s'))) ys"
    by (rule list_all2_mono) (rule filter_item_calls)
  with r(1,2) show "\<exists>total_count repo_list ys.
          stdout s' = stdout s @
              [Json_dumps 4 (JDict [(''keyword'', JStr keyword),
                                    (''repository_limit'', JInt limit),
                                    (''total_repositories'', total_count),
                                    (''repo_list'', repo_list)])] \<and>
          py_iter repo_list = Inr ys \<and>
          list_all2
            (\<lambda>x y. \<exists>dx dx1 ox ox1.
               x = JDict dx \<and> filter_dict (JDict dx) DATA_KEYS = Inr (JDict dx1) \<and>
               map_of dx1 ''owner'' = Some (JDict ox) \<and>
               filter_dict (JDict ox) OWNER_KEYS = Inr (JDict ox1) \<and>
               y = JDict (AList.update ''owner'' (JDict ox1) dx1))
            (concat (map items_of (responses s s'))) ys"
    by blast
qed

theorem filter_dict_frame_witness:
  "(\<exists>d'. filter_dict (JDict [(''login'', JStr ''ann''), (''type'', JStr ''User''), (''id'', JInt 3)])
            {''login'', ''id'', ''url''} = Inr (JDict d') \<and>
         ''type'' \<notin> fst ` set d' \<and>
         map_of d' ''login'' = Some (JStr ''ann'') \<and> map_of d' ''id'' = Some (JInt 3) \<and>
         map_of d' ''url'' = None) \<and>
   (\<exists>dx dx1 ox ox1.
       sample_repo = JDict dx \<and> filter_dict (JDict dx) DATA_KEYS = Inr (JDict dx1) \<and>
       map_of dx1 ''owner'' = Some (JDict ox) \<and>
       filter_dict (JDict ox) OWNER_KEYS = Inr (JDict ox1) \<and>
       sample_repo_filtered = JDict (AList.update ''owner'' (JDict ox1) dx1))"
proof -
  let ?s = "start [page_doc 42 [sample_repo]]"
  let ?out = "main canned ''raft'' 1 ?s"
  let ?d = "[(''login'', JStr ''ann''), (''type'', JStr ''User''), (''id'', JInt 3)]"
  note t = filter_dict_frame [of ?d "{''login'', ''id'', ''url''}" canned "''raft''" 1 ?s "snd ?out"]
  have run: "?out = (Done, snd ?out)"
    by (simp add: main_one_page)
  have out: "stdout (snd ?out) =
     [Json_dumps 4 (JDict [(''keyword'', JStr ''raft''),
                           (''repository_limit'', JInt 1),
                           (''total_repositories'', JInt 42),
                           (''repo_list'', JList [sample_repo_filtered])])]"
    by (simp add: main_one_page)
  from t [THEN conjunct1] obtain d' where
    d0: "filter_dict (JDict ?d) {''login'', ''id'', ''url''} = Inr (JDict d') \<and>
         (\<forall>k. k \<notin> {''login'', ''id'', ''url''} \<longrightarrow> k \<notin> fst ` set d') \<and>
         (\<forall>k. k \<in> {''login'', ''id'', ''url''} \<longrightarrow> map_of d' k = map_of ?d k)" ..
  note d = d0 [THEN conjunct1] d0 [THEN conjunct2, THEN conjunct1]
    d0 [THEN conjunct2, THEN conjunct2]
  have A: "\<exists>d'. filter_dict (JDict ?d) {''login'', ''id'', ''url''} = Inr (JDict d') \<and>
         ''type'' \<notin> fst ` set d' \<and>
         map_of d' ''login'' = Some (JStr ''ann'') \<and> map_of d' ''id'' = Some (JInt 3) \<and>
         map_of d' ''url'' = None"
    using d(1) d(2) [rule_format, of "''type''"] d(3) [rule_format, of "''login''"]
      d(3) [rule_format, of "''id''"] d(3) [rule_format, of "''url''"]
    by (intro exI [of _ d']) simp
  from t [THEN conjunct2, THEN mp, OF run] obtain total_count repo_list ys where
    r: "stdout (snd ?out) = stdout ?s @
              [Json_dumps 4 (JDict [(''keyword'', JStr ''raft''),
                                    (''repository_limit'', JInt 1),
                                    (''total_repositories'', total_count),
                                    (''repo_list'', repo_list)])]"
       "py_iter repo_list = Inr ys"
       "list_all2
            (\<lambda>x y. \<exists>dx dx1 ox ox1.
               x = JDict dx \<and> filter_dict (JDict dx) DATA_KEYS = Inr (JDict dx1) \<and>
               map_of dx1 ''owner'' = Some (JDict ox) \<and>
               filter_dict (JDict ox) OWNER_KEYS = Inr (JDict ox1) \<and>
               y = JDict (AList.update ''owner'' (JDict ox1) dx1))
            (concat (map items_of (responses ?s (snd ?out)))) ys"
    by blast
  have "repo_list = JList [sample_repo_filtered]"
    using r(1) unfolding out by simp
  then have ys: "ys = [sample_repo_filtered]"
    using r(2) by (simp add: py_iter_def)
  have "list_all2
            (\<lambda>x y. \<exists>dx dx1 ox ox1.
               x = JDict dx \<and> filter_dict (JDict dx) DATA_KEYS = Inr (JDict dx1) \<and>
               map_of dx1 ''owner'' = Some (JDict ox) \<and>
               filter_dict (JDict ox) OWNER_KEYS = Inr (JDict ox1) \<and>
               y = JDict (AList.update ''owner'' (JDict ox1) dx1))
            [sample_repo] [sample_repo_filtered]"
    using r(3) unfolding ys responses_one_page
    by (simp only: list.map concat.simps append_Nil2 items_of_page_doc)
  then have B: "\<exists>dx dx1 ox ox1.
       sample_repo = JDict dx \<and> filter_dict (JDict dx) DATA_KEYS = Inr (JDict dx1) \<and>
       map_of dx1 ''owner'' = Some (JDict ox) \<and>
       filter_dict (JDict ox) OWNER_KEYS = Inr (JDict ox1) \<and>
       sample_repo_filtered = JDict (AList.update ''owner'' (JDict ox1) dx1)"
    by (rule list_all2_single)
  from A B show ?thesis ..
qed




text \<open>
  C1: the length of \<^verbatim>\<open>repo_list\<close>. The docstring of \<^verbatim>\<open>main\<close> has the list reduced to
  the top \<^verbatim>\<open>limit\<close> values, and the claim bounds it by the limit and by the number of
  results; the code prints the merged items as they are. With a limit of 1 and a
  response of two items the report has two records. With a limit of 150 and a server
  that holds 120 results and pages by \<^verbatim>\<open>per_page\<close>, the requests are
  \<^verbatim>\<open>per_page=100&page=1\<close> and \<^verbatim>\<open>per_page=50&page=2\<close>: the second answer is results
  51 to 100 again, and the report has 150 records for a \<^verbatim>\<open>total_count\<close> of 120.
\<close>

theorem repo_list_not_reduced:
  "stdout (snd (main canned ''raft'' 1 (start [page_doc 2 [sample_repo, sample_repo]]))) =
     [Json_dumps 4 (JDict [(''keyword'', JStr ''raft''),
                           (''repository_limit'', JInt 1),
                           (''total_repositories'', JInt 2),
                           (''repo_list'', JList [sample_repo_filtered, sample_repo_filtered])])] \<and>
   int (length [sample_repo_filtered, sample_repo_filtered]) \<noteq> min 1 2 \<and>
   requests
     (start [paged_answer (map repo [1..<121]) 100 1, paged_answer (map repo [1..<121]) 50 2])
     (snd (main canned ''kv-store'' 150
        (start [paged_answer (map repo [1..<121]) 100 1,
                paged_answer (map repo [1..<121]) 50 2]))) =
     [''https://api.github.com/search/repositories?q=kv-store&sort=forks&order=desc&per_page=100&page=1'',
      ''https://api.github.com/search/repositories?q=kv-store&sort=forks&order=desc&per_page=50&page=2''] \<and>
   stdout (snd (main canned ''kv-store'' 150
        (start [paged_answer (map repo [1..<121]) 100 1,
                paged_answer (map repo [1..<121]) 50 2]))) =
     [Json_dumps 4 (JDict [(''keyword'', JStr ''kv-store''),
                           (''repository_limit'', JInt 150),
                           (''total_repositories'', JInt 120),
                           (''repo_list'', JList (map repo ([1..<101] @ [51..<101])))])] \<and>
   length (map repo ([1..<101] @ [51..<101])) = 150 \<and>
   int (length (map repo ([1..<101] @ [51..<101]))) \<noteq> min 150 120"
  unfolding main_overfull_page main_paged
  by (simp add: requests_def start_simps page_url_samples del: upt_rec_numeral)

text \<open>
  C10: a response without \<^verbatim>\<open>items\<close>. The recursive call is read with
  \<^verbatim>\<open>.get('items', [])\<close>, so that a later page without \<^verbatim>\<open>items\<close> adds nothing, and
  this is what happens for the last page: with a limit of 250 and a third response
  without \<^verbatim>\<open>items\<close> the run ends normally with the records of pages 1 and 2. But a
  call with a remaining limit above 100 reads \<^verbatim>\<open>r_json['items']\<close> itself: with the
  same limit and the second response without \<^verbatim>\<open>items\<close>, the program stops with an
  uncaught \<^verbatim>\<open>KeyError\<close> after two requests and page 3 is never asked.
\<close>

theorem missing_items_middle_page:
  "main canned ''raft'' 250
     (start [page_doc 250 [sample_repo], rate_limited, page_doc 250 [sample_repo]]) =
   (Uncaught (KeyError ''items''),
    \<lparr>transcript = [(page_url ''raft'' 250 1, Inr (page_doc 250 [sample_repo])),
                   (page_url ''raft'' 150 2, Inr rate_limited)],
     world = [page_doc 250 [sample_repo]], stdout = []\<rparr>) \<and>
   main canned ''raft'' 250
     (start [page_doc 250 [sample_repo], page_doc 250 [sample_repo], rate_limited]) =
   (Done,
    \<lparr>transcript = [(page_url ''raft'' 250 1, Inr (page_doc 250 [sample_repo])),
                   (page_url ''raft'' 150 2, Inr (page_doc 250 [sample_repo])),
                   (page_url ''raft'' 50 3, Inr rate_limited)],
     world = [],
     stdout = [Json_dumps 4 (JDict [(''keyword'', JStr ''raft''),
                                    (''repository_limit'', JInt 250),
                                    (''total_repositories'', JInt 250),
                                    (''repo_list'', JList [sample_repo_filtered, sample_repo_filtered])])]\<rparr>)"
  by (simp add: main_rate_limited main_last_page_refused)

end
